theory Spec2Isabelle
  imports Main "HOL-Library.Word"
begin

section \<open>The SPI tty bridge (drivers/spi/spi-tty-plain.c)\<close>

text \<open>
  A shallow embedding of the driver. C integers are 32-bit words: \<open>int\<close> values are
  read with \<open>sint\<close> and compared with \<open><s\<close>, \<open>unsigned int\<close> values with \<open>unat\<close>
  and \<open><\<close>. A buffer pointer is an optional byte list (\<open>None\<close> is the NULL pointer).
  Calls that leave the driver (the mutex, the SPI core, the tty layer) are recorded, in
  order, in the \<open>trace\<close> of the kernel state; the allocator keeps the list of objects
  that are allocated and not yet freed.
\<close>

subsection \<open>Constants\<close>

type_synonym u8 = "8 word"
type_synonym c_int = "32 word"
type_synonym c_uint = "32 word"

definition SPI_TTY_ENQUIRY :: u8 where
  "SPI_TTY_ENQUIRY = 0x5"

definition SPI_TTY_MSG_LEN :: c_int where
  "SPI_TTY_MSG_LEN = 64"

definition SPI_TTY_FREQ_HZ_RX :: "32 word" where
  "SPI_TTY_FREQ_HZ_RX = 9600"

definition SPI_TTY_FREQ_HZ_TX :: "32 word" where
  "SPI_TTY_FREQ_HZ_TX = 115200"

definition SPI_TTY_DELAY_US :: "16 word" where
  "SPI_TTY_DELAY_US = 25"

definition SPI_SERIAL_TTY_MINORS :: c_uint where
  "SPI_SERIAL_TTY_MINORS = 1"

text \<open>The errno values of the kernel (include/asm-generic/errno-base.h).\<close>

definition ENOMEM :: c_int where
  "ENOMEM = 12"

definition EBUSY :: c_int where
  "EBUSY = 16"

subsection \<open>Data\<close>

text \<open>\<open>struct spi_transfer\<close>, the fields the driver sets.\<close>

record spi_transfer =
  len :: c_uint
  tx_buf :: "u8 list"
  rx_buf :: "u8 list"
  delay_usecs :: "16 word"
  speed_hz :: "32 word"

text \<open>\<open>struct spi_message\<close>: the queue of its transfers.\<close>

type_synonym spi_message = "spi_transfer list"

type_synonym spi_device = nat
type_synonym tty_struct = nat

text \<open>\<open>struct spi_tty\<close>; \<open>mtx\<close> holds whether the mutex is locked.\<close>

record spi_tty =
  spi :: spi_device
  tty_minor :: c_uint
  tty_dev :: nat
  enq_buf :: "u8 list"
  mtx :: bool

text \<open>What the allocator hands out: the objects of one transaction and of one probe.\<close>

datatype kobj =
    Rx_buf nat
  | Spi_message_obj
  | Spi_transfer_obj
  | Spi_tty_obj

datatype event =
    Mutex_lock
  | Mutex_unlock
  | Kmalloc kobj bool
  | Kfree kobj
  | Spi_sync spi_device spi_message
  | Tty_insert_flip_char tty_struct u8
  | Tty_flip_buffer_push tty_struct

text \<open>
  The file's static variables \<open>dev_count\<close> and \<open>ttys\<close> (an array indexed
  by minor), the outstanding allocations and the trace.
\<close>

record kstate =
  dev_count :: c_uint
  ttys :: "nat \<rightharpoonup> tty_struct"
  live :: "kobj list"
  trace :: "event list"

text \<open>
  What the surroundings decide in one call of the write path: whether each of the three
  allocations succeeds, and what the SPI core answers to a message (its return code and
  the bytes clocked in).
\<close>

record env =
  alloc_rx_ok :: bool
  alloc_m_ok :: bool
  alloc_t_ok :: bool
  spi_sync_result :: "spi_device \<Rightarrow> spi_message \<Rightarrow> c_int \<times> u8 list"

subsection \<open>Kernel services\<close>

definition emit :: "event \<Rightarrow> kstate \<Rightarrow> kstate" where
  "emit ev s = s\<lparr>trace := trace s @ [ev]\<rparr>"

definition mutex_lock :: "spi_tty \<Rightarrow> kstate \<Rightarrow> spi_tty \<times> kstate" where
  "mutex_lock stty s = (stty\<lparr>mtx := True\<rparr>, emit Mutex_lock s)"

definition mutex_unlock :: "spi_tty \<Rightarrow> kstate \<Rightarrow> spi_tty \<times> kstate" where
  "mutex_unlock stty s = (stty\<lparr>mtx := False\<rparr>, emit Mutex_unlock s)"

text \<open>
  \<open>kmalloc\<close>/\<open>kzalloc\<close>: \<open>False\<close> is the NULL result. The request is
  recorded with its outcome.
\<close>

definition kmalloc :: "bool \<Rightarrow> kobj \<Rightarrow> kstate \<Rightarrow> bool \<times> kstate" where
  "kmalloc ok obj s =
     (if ok then (True, emit (Kmalloc obj True) (s\<lparr>live := obj # live s\<rparr>))
      else (False, emit (Kmalloc obj False) s))"

definition kfree :: "kobj \<Rightarrow> kstate \<Rightarrow> kstate" where
  "kfree obj s = emit (Kfree obj) (s\<lparr>live := remove1 obj (live s)\<rparr>)"

text \<open>
  \<open>spi_sync\<close>: the exchange is recorded; the bytes clocked in overwrite a prefix
  of the zeroed inbound buffer, whose length stays that of the transfer.
\<close>

definition fill_rx :: "nat \<Rightarrow> u8 list \<Rightarrow> u8 list" where
  "fill_rx n bytes = take n (bytes @ replicate n 0)"

definition spi_sync :: "env \<Rightarrow> spi_device \<Rightarrow> spi_message \<Rightarrow> kstate \<Rightarrow> c_int \<times> u8 list \<times> kstate" where
  "spi_sync e dev m s =
     (let (ret, bytes) = spi_sync_result e dev m
      in (ret, fill_rx (unat (len (hd m))) bytes, emit (Spi_sync dev m) s))"

definition tty_insert_flip_char :: "tty_struct \<Rightarrow> u8 \<Rightarrow> kstate \<Rightarrow> kstate" where
  "tty_insert_flip_char tty c s = emit (Tty_insert_flip_char tty c) s"

definition tty_flip_buffer_push :: "tty_struct \<Rightarrow> kstate \<Rightarrow> kstate" where
  "tty_flip_buffer_push tty s = emit (Tty_flip_buffer_push tty) s"

text \<open>\<open>spi_message_init\<close> and \<open>spi_message_add_tail\<close> on the queue of transfers.\<close>

definition spi_message_init :: spi_message where
  "spi_message_init = []"

definition spi_message_add_tail :: "spi_transfer \<Rightarrow> spi_message \<Rightarrow> spi_message" where
  "spi_message_add_tail t m = m @ [t]"

text \<open>\<open>dev_dbg\<close> writes a diagnostic and touches nothing of the driver.\<close>

definition dev_dbg :: "kstate \<Rightarrow> kstate" where
  "dev_dbg s = s"

subsection \<open>The write path\<close>

text \<open>The kernel's \<open>min\<close> on two \<open>int\<close> values.\<close>

definition min_int :: "c_int \<Rightarrow> c_int \<Rightarrow> c_int" where
  "min_int x y = (if x <s y then x else y)"

text \<open>
  The delivery loop \<open>for (i = 1; i < len; i++)\<close>: \<open>i\<close> is compared with the
  unsigned \<open>len\<close>, so the comparison is the unsigned one, and below \<open>len\<close> the
  increment does not wrap. The buffer read has \<open>len\<close> bytes, so every index the
  loop visits is inside it.
\<close>

function rx_loop :: "tty_struct \<Rightarrow> u8 list \<Rightarrow> c_uint \<Rightarrow> c_uint \<Rightarrow> kstate \<Rightarrow> kstate" where
  "rx_loop tty rx i n s =
     (if i < n
      then rx_loop tty rx (i + 1) n
             (if rx ! unat i = 0 then s else tty_insert_flip_char tty (rx ! unat i) s)
      else s)"
  by pat_completeness auto
termination
proof (relation "measure (\<lambda>(tty, rx, i, n, s). unat n - unat i)")
  show "wf (measure (\<lambda>(tty, rx, i, n, s). unat n - unat i))"
    by simp
next
  fix tty :: tty_struct and rx :: "u8 list" and i n :: c_uint and s :: kstate
  assume lt: "i < n"
  then have below: "unat i < unat n"
    by (simp add: word_less_nat_alt)
  moreover have "unat n < 2 ^ 32"
    using unsigned_less [of n] by simp
  ultimately have "unat i + unat (1 :: c_uint) < 2 ^ LENGTH(32)"
    by simp
  then have "unat (i + 1) = unat i + unat (1 :: c_uint)"
    by (simp only: unat_add_lem)
  then have "unat (i + 1) = Suc (unat i)"
    by simp
  with below show "((tty, rx, i + 1, n,
      if rx ! unat i = 0 then s else tty_insert_flip_char tty (rx ! unat i) s),
      (tty, rx, i, n, s)) \<in> measure (\<lambda>(tty, rx, i, n, s). unat n - unat i)"
    by simp
qed

declare rx_loop.simps [simp del]

text \<open>The transfer length chosen at the head of the write path.\<close>

definition xfer_len :: "c_int \<Rightarrow> c_int \<Rightarrow> c_uint" where
  "xfer_len count discard_rx =
     (if discard_rx \<noteq> 0 then min_int SPI_TTY_MSG_LEN count else count)"

text \<open>
  The transfer record as the write path fills it: the length, the caller's buffer, the
  zeroed inbound buffer, the delay and the clock of the direction.
\<close>

definition make_transfer :: "u8 list \<Rightarrow> c_uint \<Rightarrow> c_int \<Rightarrow> spi_transfer" where
  "make_transfer b n discard_rx =
     \<lparr>len = n, tx_buf = b, rx_buf = replicate (unat n) 0,
      delay_usecs = SPI_TTY_DELAY_US,
      speed_hz = (if discard_rx \<noteq> 0 then SPI_TTY_FREQ_HZ_TX else SPI_TTY_FREQ_HZ_RX)\<rparr>"

text \<open>
  \<open>__spi_serial_tty_write\<close>. The result is the returned \<open>int\<close>, the instance
  (its mutex) and the kernel state.
\<close>

definition uu_spi_serial_tty_write ::
  "env \<Rightarrow> spi_tty \<Rightarrow> u8 list option \<Rightarrow> c_int \<Rightarrow> c_int \<Rightarrow> kstate \<Rightarrow> c_int \<times> spi_tty \<times> kstate" where
  "uu_spi_serial_tty_write e stty buf count discard_rx s =
     (case buf of
        None \<Rightarrow> (0, stty, s)
      | Some b \<Rightarrow>
          if count = 0 then (0, stty, s)
          else
            let (stty1, s1) = mutex_lock stty s;
                n = xfer_len count discard_rx;
                (rx_ok, s2) = kmalloc (alloc_rx_ok e) (Rx_buf (unat n)) s1
            in if \<not> rx_ok then
                 (let (stty2, s3) = mutex_unlock stty1 s2 in (- ENOMEM, stty2, s3))
               else
                 let (m_ok, s3) = kmalloc (alloc_m_ok e) Spi_message_obj s2
                 in if \<not> m_ok then
                      (let (stty2, s4) = mutex_unlock stty1 s3 in (- ENOMEM, stty2, s4))
                    else
                      let (t_ok, s4) = kmalloc (alloc_t_ok e) Spi_transfer_obj s3
                      in if \<not> t_ok then
                           (let (stty2, s5) = mutex_unlock stty1 s4 in (- ENOMEM, stty2, s5))
                         else
                           let t = make_transfer b n discard_rx;
                               m = spi_message_add_tail t spi_message_init;
                               (ret, rx, s5) = spi_sync e (spi stty1) m s4;
                               s6 = (if discard_rx \<noteq> 0 then s5
                                     else
                                       let s5' = (if ret \<noteq> 0 then dev_dbg s5 else s5)
                                       in case ttys s5' 0 of
                                            None \<Rightarrow> s5'
                                          | Some tty \<Rightarrow>
                                              tty_flip_buffer_push tty (rx_loop tty rx 1 n s5'));
                               s7 = kfree Spi_transfer_obj s6;
                               s8 = kfree Spi_message_obj s7;
                               s9 = kfree (Rx_buf (unat n)) s8;
                               (stty2, s10) = mutex_unlock stty1 s9
                           in (n, stty2, s10))"

text \<open>\<open>spi_serial_tty_write\<close>: the tty layer's write, which discards the answer.\<close>

definition spi_serial_tty_write ::
  "env \<Rightarrow> spi_tty \<Rightarrow> u8 list option \<Rightarrow> c_int \<Rightarrow> kstate \<Rightarrow> c_int \<times> spi_tty \<times> kstate" where
  "spi_serial_tty_write e stty buf count s = uu_spi_serial_tty_write e stty buf count 1 s"

subsection \<open>Lookup\<close>

text \<open>
  \<open>spi_serial_tty_lookup\<close>. The \<open>if (idx == 0);\<close> of the source has the empty
  statement as its body, and the \<open>return ttys[0]\<close> after it always runs.
\<close>

definition spi_serial_tty_lookup :: "kstate \<Rightarrow> c_int \<Rightarrow> tty_struct option" where
  "spi_serial_tty_lookup s idx =
     (let u = (if idx = 0 then () else ())
      in ttys s 0)"

subsection \<open>The interrupt handler and the probe\<close>

text \<open>\<open>sizeof(stty->enq_buf)\<close>: the array is declared with \<open>SPI_TTY_MSG_LEN + 1\<close> bytes.\<close>

definition sizeof_enq_buf :: c_int where
  "sizeof_enq_buf = SPI_TTY_MSG_LEN + 1"

definition IRQ_HANDLED :: c_int where
  "IRQ_HANDLED = 1"

text \<open>\<open>spi_tty_irq_handler\<close>: one poll with the enquiry buffer, its answer kept.\<close>

definition spi_tty_irq_handler :: "env \<Rightarrow> spi_tty \<Rightarrow> kstate \<Rightarrow> c_int \<times> spi_tty \<times> kstate" where
  "spi_tty_irq_handler e stty s =
     (let (ret, stty1, s1) =
            uu_spi_serial_tty_write e stty (Some (enq_buf stty)) sizeof_enq_buf 0 s
      in (IRQ_HANDLED, stty1, s1))"

text \<open>\<open>memset\<close> on the first \<open>n\<close> bytes of a buffer.\<close>

definition memset :: "u8 list \<Rightarrow> u8 \<Rightarrow> nat \<Rightarrow> u8 list" where
  "memset buf c n = replicate (min n (length buf)) c @ drop n buf"

text \<open>
  What the surroundings decide in one probe: whether the instance is allocated, what
  \<open>devm_request_threaded_irq\<close> returns, and what \<open>tty_register_device\<close> returns
  (an error code, or the device).
\<close>

record probe_env =
  alloc_stty_ok :: bool
  request_irq_ret :: c_int
  register_device_ret :: "c_int + nat"

text \<open>
  \<open>spi_tty_probe\<close>. The result is the returned \<open>int\<close>, the instance when the
  probe succeeds, and the kernel state. The instance comes zeroed from \<open>kzalloc\<close>;
  the probe then sets the device, fills the enquiry buffer and clears its last byte,
  initialises the mutex, requests the interrupt, takes \<open>dev_count\<close> as the minor and
  registers the tty device. Both failures after the allocation free the instance.
\<close>

definition spi_tty_probe ::
  "probe_env \<Rightarrow> spi_device \<Rightarrow> kstate \<Rightarrow> c_int \<times> spi_tty option \<times> kstate" where
  "spi_tty_probe pe dev s =
     (if SPI_SERIAL_TTY_MINORS \<le> dev_count s then (- ENOMEM, None, s)
      else
        let (ok, s1) = kmalloc (alloc_stty_ok pe) Spi_tty_obj s
        in if \<not> ok then (- ENOMEM, None, s1)
           else
             let stty0 = \<lparr>spi = 0, tty_minor = 0, tty_dev = 0,
                           enq_buf = replicate (unat sizeof_enq_buf) 0, mtx = False\<rparr>;
                 stty1 = stty0\<lparr>spi := dev\<rparr>;
                 stty2 = stty1\<lparr>enq_buf :=
                           memset (enq_buf stty1) SPI_TTY_ENQUIRY (unat sizeof_enq_buf)\<rparr>;
                 stty3 = stty2\<lparr>enq_buf := (enq_buf stty2)[unat sizeof_enq_buf - 1 := 0]\<rparr>;
                 stty4 = stty3\<lparr>mtx := False\<rparr>;
                 err = request_irq_ret pe
             in if err \<noteq> 0 then (err, None, kfree Spi_tty_obj s1)
                else
                  let stty5 = stty4\<lparr>tty_minor := dev_count s1\<rparr>
                  in case register_device_ret pe of
                       Inl err' \<Rightarrow> (err', None, kfree Spi_tty_obj s1)
                     | Inr d \<Rightarrow>
                         (0, Some (stty5\<lparr>tty_dev := d\<rparr>),
                          s1\<lparr>dev_count := dev_count s1 + 1\<rparr>))"

subsection \<open>Reading a trace\<close>

text \<open>The events one call of the write path adds to the trace.\<close>

definition call_events ::
  "env \<Rightarrow> spi_tty \<Rightarrow> u8 list option \<Rightarrow> c_int \<Rightarrow> c_int \<Rightarrow> kstate \<Rightarrow> event list" where
  "call_events e stty buf count discard_rx s =
     drop (length (trace s))
       (trace (snd (snd (uu_spi_serial_tty_write e stty buf count discard_rx s))))"

text \<open>The messages handed to the SPI core, the sizes of the inbound buffers asked
  for, the bytes fed to the ttys.\<close>

fun spi_syncs :: "event list \<Rightarrow> spi_message list" where
  "spi_syncs [] = []"
| "spi_syncs (Spi_sync dev m # evs) = m # spi_syncs evs"
| "spi_syncs (ev # evs) = spi_syncs evs"

fun rx_requests :: "event list \<Rightarrow> nat list" where
  "rx_requests [] = []"
| "rx_requests (Kmalloc (Rx_buf n) ok # evs) = n # rx_requests evs"
| "rx_requests (ev # evs) = rx_requests evs"

fun flip_chars :: "event list \<Rightarrow> (tty_struct \<times> u8) list" where
  "flip_chars [] = []"
| "flip_chars (Tty_insert_flip_char tty c # evs) = (tty, c) # flip_chars evs"
| "flip_chars (ev # evs) = flip_chars evs"

text \<open>The events one run of the interrupt handler adds to the trace.\<close>

definition irq_events :: "env \<Rightarrow> spi_tty \<Rightarrow> kstate \<Rightarrow> event list" where
  "irq_events e stty s =
     drop (length (trace s)) (trace (snd (snd (spi_tty_irq_handler e stty s))))"

text \<open>
  The inbound buffer of a one-transfer message once the SPI core has answered, and the
  calls by which the write path feeds it to a tty.
\<close>

definition inbound :: "env \<Rightarrow> spi_tty \<Rightarrow> spi_transfer \<Rightarrow> u8 list" where
  "inbound e stty t = fill_rx (unat (len t)) (snd (spi_sync_result e (spi stty) [t]))"

definition feed_events :: "tty_struct \<Rightarrow> u8 list \<Rightarrow> event list" where
  "feed_events tty rx =
     map (Tty_insert_flip_char tty) (filter (\<lambda>c. c \<noteq> 0) (drop 1 rx))
     @ [Tty_flip_buffer_push tty]"

text \<open>The bytes of a transfer that go out on the wire.\<close>

definition frame :: "spi_transfer \<Rightarrow> u8 list" where
  "frame t = take (unat (len t)) (tx_buf t)"

subsection \<open>The mutex\<close>

text \<open>
  The lock discipline of one thread's events, read from left to right with \<open>held\<close>
  saying whether the thread holds the mutex: \<open>mutex_lock\<close> is called only when it
  does not, every other call is made only while it does, and at the end the mutex is
  released.
\<close>

fun disciplined :: "bool \<Rightarrow> event list \<Rightarrow> bool" where
  "disciplined held [] = (\<not> held)"
| "disciplined held (Mutex_lock # evs) = (\<not> held \<and> disciplined True evs)"
| "disciplined held (Mutex_unlock # evs) = (held \<and> disciplined False evs)"
| "disciplined held (ev # evs) = (held \<and> disciplined held evs)"

text \<open>One call of the write path: its arguments and what its surroundings decide.\<close>

record write_call =
  c_env :: env
  c_stty :: spi_tty
  c_buf :: "u8 list option"
  c_count :: c_int
  c_discard_rx :: c_int
  c_state :: kstate

definition events_of :: "write_call \<Rightarrow> event list" where
  "events_of c =
     call_events (c_env c) (c_stty c) (c_buf c) (c_count c) (c_discard_rx c) (c_state c)"

text \<open>
  Threads that call the write path on one instance. Each thread has the events of its
  calls still to perform; \<open>owner\<close> is the thread that holds the instance's mutex.
  A thread performs its next event in one step. \<open>mutex_lock\<close> can only be performed
  when no thread holds the mutex (a thread that finds it held waits);
  \<open>mutex_unlock\<close> frees the mutex whoever calls it.
\<close>

type_synonym thread = nat

record sched =
  owner :: "thread option"
  pending :: "thread \<Rightarrow> event list"

definition start :: "(thread \<Rightarrow> write_call list) \<Rightarrow> sched" where
  "start calls = \<lparr>owner = None, pending = (\<lambda>t. concat (map events_of (calls t)))\<rparr>"

inductive step :: "sched \<Rightarrow> sched \<Rightarrow> bool" where
  acquire:
    "pending c t = Mutex_lock # evs \<Longrightarrow> owner c = None \<Longrightarrow>
     step c (c\<lparr>owner := Some t, pending := (pending c)(t := evs)\<rparr>)"
| release:
    "pending c t = Mutex_unlock # evs \<Longrightarrow>
     step c (c\<lparr>owner := None, pending := (pending c)(t := evs)\<rparr>)"
| perform:
    "pending c t = ev # evs \<Longrightarrow> ev \<noteq> Mutex_lock \<Longrightarrow> ev \<noteq> Mutex_unlock \<Longrightarrow>
     step c (c\<lparr>pending := (pending c)(t := evs)\<rparr>)"

inductive reachable :: "(thread \<Rightarrow> write_call list) \<Rightarrow> sched \<Rightarrow> bool" where
  initial: "reachable calls (start calls)"
| later: "reachable calls c \<Longrightarrow> step c c' \<Longrightarrow> reachable calls c'"

section \<open>The paths of the write routine\<close>

text \<open>
  The delivery loop adds one \<open>tty_insert_flip_char\<close> per non-null byte of the
  indices it visits; the four lemmas after it give the result of the write routine on
  each of its exits past the first check.
\<close>

lemma unat_succ_below: "(i :: c_uint) < n \<Longrightarrow> unat (i + 1) = Suc (unat i)"
proof -
  assume lt: "i < n"
  then have "unat i < unat n"
    by (simp add: word_less_nat_alt)
  moreover have "unat n < 2 ^ 32"
    using unsigned_less [of n] by simp
  ultimately have "unat i + unat (1 :: c_uint) < 2 ^ LENGTH(32)"
    by simp
  then have "unat (i + 1) = unat i + unat (1 :: c_uint)"
    by (simp only: unat_add_lem)
  then show ?thesis by simp
qed

lemma rx_loop_emit:
  "rx_loop tty rx i n s =
     s\<lparr>trace := trace s @ map (Tty_insert_flip_char tty)
                            (filter (\<lambda>c. c \<noteq> 0) (map ((!) rx) [unat i..<unat n]))\<rparr>"
proof (induction tty rx i n s rule: rx_loop.induct)
  case (1 tty rx i n s)
  show ?case
  proof (cases "i < n")
    case True
    then have suc: "unat (i + 1) = Suc (unat i)"
      by (rule unat_succ_below)
    from True have "unat i < unat n"
      by (simp add: word_less_nat_alt)
    then have upt: "[unat i..<unat n] = unat i # [Suc (unat i)..<unat n]"
      by (rule upt_conv_Cons)
    have unfold: "rx_loop tty rx i n s =
        rx_loop tty rx (i + 1) n
          (if rx ! unat i = 0 then s else tty_insert_flip_char tty (rx ! unat i) s)"
      using True by (subst rx_loop.simps) simp
    show ?thesis
      unfolding unfold 1 [OF True]
      by (simp add: suc upt tty_insert_flip_char_def emit_def)
  next
    case False
    then have "\<not> unat i < unat n"
      by (simp add: word_less_nat_alt)
    moreover from False have "rx_loop tty rx i n s = s"
      by (subst rx_loop.simps) simp
    ultimately show ?thesis
      by simp
  qed
qed

lemma write_rx_fail:
  assumes "count \<noteq> 0" and "\<not> alloc_rx_ok e"
  shows "uu_spi_serial_tty_write e stty (Some b) count discard_rx s =
     (- ENOMEM, stty\<lparr>mtx := False\<rparr>,
      s\<lparr>trace := trace s @ [Mutex_lock, Kmalloc (Rx_buf (unat (xfer_len count discard_rx))) False,
                            Mutex_unlock]\<rparr>)"
  using assms
  by (simp add: uu_spi_serial_tty_write_def mutex_lock_def mutex_unlock_def kmalloc_def emit_def Let_def)

lemma write_m_fail:
  assumes "count \<noteq> 0" and "alloc_rx_ok e" and "\<not> alloc_m_ok e"
  shows "uu_spi_serial_tty_write e stty (Some b) count discard_rx s =
     (- ENOMEM, stty\<lparr>mtx := False\<rparr>,
      s\<lparr>live := Rx_buf (unat (xfer_len count discard_rx)) # live s,
        trace := trace s @ [Mutex_lock, Kmalloc (Rx_buf (unat (xfer_len count discard_rx))) True,
                            Kmalloc Spi_message_obj False, Mutex_unlock]\<rparr>)"
  using assms
  by (simp add: uu_spi_serial_tty_write_def mutex_lock_def mutex_unlock_def kmalloc_def emit_def Let_def)

lemma write_t_fail:
  assumes "count \<noteq> 0" and "alloc_rx_ok e" and "alloc_m_ok e" and "\<not> alloc_t_ok e"
  shows "uu_spi_serial_tty_write e stty (Some b) count discard_rx s =
     (- ENOMEM, stty\<lparr>mtx := False\<rparr>,
      s\<lparr>live := Spi_message_obj # Rx_buf (unat (xfer_len count discard_rx)) # live s,
        trace := trace s @ [Mutex_lock, Kmalloc (Rx_buf (unat (xfer_len count discard_rx))) True,
                            Kmalloc Spi_message_obj True, Kmalloc Spi_transfer_obj False,
                            Mutex_unlock]\<rparr>)"
  using assms
  by (simp add: uu_spi_serial_tty_write_def mutex_lock_def mutex_unlock_def kmalloc_def emit_def Let_def)


lemma length_fill_rx: "length (fill_rx n bytes) = n"
  by (simp add: fill_rx_def)

lemma nths_from_one: "map ((!) xs) [1..<length xs] = drop 1 xs"
proof -
  have "drop 1 (map ((!) xs) [0..<length xs]) = map ((!) xs) (drop 1 [0..<length xs])"
    by (rule drop_map)
  then show ?thesis
    by (simp add: map_nth drop_upt del: upt_Suc)
qed

lemma len_make_transfer: "len (make_transfer b n discard_rx) = n"
  by (simp add: make_transfer_def)

lemma fill_rx_from_one:
  "map ((!) (fill_rx k bytes)) [Suc 0..<k] = drop (Suc 0) (fill_rx k bytes)"
  using nths_from_one [of "fill_rx k bytes"] by (simp add: length_fill_rx)

lemma write_ok:
  assumes "count \<noteq> 0" and "alloc_rx_ok e" and "alloc_m_ok e" and "alloc_t_ok e"
  shows "uu_spi_serial_tty_write e stty (Some b) count discard_rx s =
     (xfer_len count discard_rx, stty\<lparr>mtx := False\<rparr>,
      s\<lparr>trace := trace s
          @ [Mutex_lock, Kmalloc (Rx_buf (unat (xfer_len count discard_rx))) True,
             Kmalloc Spi_message_obj True, Kmalloc Spi_transfer_obj True,
             Spi_sync (spi stty) [make_transfer b (xfer_len count discard_rx) discard_rx]]
          @ (if discard_rx \<noteq> 0 then []
             else case ttys s 0 of
                    None \<Rightarrow> []
                  | Some tty \<Rightarrow>
                      feed_events tty
                        (inbound e stty (make_transfer b (xfer_len count discard_rx) discard_rx)))
          @ [Kfree Spi_transfer_obj, Kfree Spi_message_obj,
             Kfree (Rx_buf (unat (xfer_len count discard_rx))), Mutex_unlock]\<rparr>)"
  using assms
  by (simp add: uu_spi_serial_tty_write_def Let_def
      mutex_lock_def mutex_unlock_def kmalloc_def kfree_def emit_def spi_sync_def
      spi_message_init_def spi_message_add_tail_def dev_dbg_def tty_flip_buffer_push_def
      rx_loop_emit feed_events_def split_beta inbound_def len_make_transfer fill_rx_from_one
      split: option.split)

subsection \<open>The events of a call\<close>

lemma call_events_of:
  "snd (snd (uu_spi_serial_tty_write e stty buf count discard_rx s)) = s\<lparr>trace := trace s @ evs\<rparr>
   \<Longrightarrow> call_events e stty buf count discard_rx s = evs"
  by (simp add: call_events_def)

lemma spi_syncs_append: "spi_syncs (xs @ ys) = spi_syncs xs @ spi_syncs ys"
  by (induction xs rule: spi_syncs.induct) simp_all

lemma rx_requests_append: "rx_requests (xs @ ys) = rx_requests xs @ rx_requests ys"
  by (induction xs rule: rx_requests.induct) simp_all

lemma flip_chars_append: "flip_chars (xs @ ys) = flip_chars xs @ flip_chars ys"
  by (induction xs rule: flip_chars.induct) simp_all

lemma spi_syncs_inserts: "spi_syncs (map (Tty_insert_flip_char tty) cs) = []"
  by (induction cs) simp_all

lemma rx_requests_inserts: "rx_requests (map (Tty_insert_flip_char tty) cs) = []"
  by (induction cs) simp_all

lemma flip_chars_inserts: "flip_chars (map (Tty_insert_flip_char tty) cs) = map (Pair tty) cs"
  by (induction cs) simp_all

lemma spi_syncs_feed: "spi_syncs (feed_events tty rx) = []"
  by (simp add: feed_events_def spi_syncs_append spi_syncs_inserts)

lemma rx_requests_feed: "rx_requests (feed_events tty rx) = []"
  by (simp add: feed_events_def rx_requests_append rx_requests_inserts)

lemma flip_chars_feed:
  "flip_chars (feed_events tty rx) = map (Pair tty) (filter (\<lambda>c. c \<noteq> 0) (drop 1 rx))"
  by (simp add: feed_events_def flip_chars_append flip_chars_inserts)

text \<open>The events of a call on each of its paths.\<close>

lemma call_events_ok:
  assumes "count \<noteq> 0" and "alloc_rx_ok e" and "alloc_m_ok e" and "alloc_t_ok e"
  shows "call_events e stty (Some b) count discard_rx s =
     [Mutex_lock, Kmalloc (Rx_buf (unat (xfer_len count discard_rx))) True,
      Kmalloc Spi_message_obj True, Kmalloc Spi_transfer_obj True,
      Spi_sync (spi stty) [make_transfer b (xfer_len count discard_rx) discard_rx]]
     @ (if discard_rx \<noteq> 0 then []
        else case ttys s 0 of
               None \<Rightarrow> []
             | Some tty \<Rightarrow>
                 feed_events tty
                   (inbound e stty (make_transfer b (xfer_len count discard_rx) discard_rx)))
     @ [Kfree Spi_transfer_obj, Kfree Spi_message_obj,
        Kfree (Rx_buf (unat (xfer_len count discard_rx))), Mutex_unlock]"
  by (rule call_events_of) (simp only: write_ok [OF assms] snd_conv)

lemma call_events_rx_fail:
  assumes "count \<noteq> 0" and "\<not> alloc_rx_ok e"
  shows "call_events e stty (Some b) count discard_rx s =
     [Mutex_lock, Kmalloc (Rx_buf (unat (xfer_len count discard_rx))) False, Mutex_unlock]"
  by (rule call_events_of) (simp only: write_rx_fail [OF assms] snd_conv)

lemma call_events_m_fail:
  assumes "count \<noteq> 0" and "alloc_rx_ok e" and "\<not> alloc_m_ok e"
  shows "call_events e stty (Some b) count discard_rx s =
     [Mutex_lock, Kmalloc (Rx_buf (unat (xfer_len count discard_rx))) True,
      Kmalloc Spi_message_obj False, Mutex_unlock]"
  by (simp add: call_events_def write_m_fail [OF assms])

lemma call_events_t_fail:
  assumes "count \<noteq> 0" and "alloc_rx_ok e" and "alloc_m_ok e" and "\<not> alloc_t_ok e"
  shows "call_events e stty (Some b) count discard_rx s =
     [Mutex_lock, Kmalloc (Rx_buf (unat (xfer_len count discard_rx))) True,
      Kmalloc Spi_message_obj True, Kmalloc Spi_transfer_obj False, Mutex_unlock]"
  by (simp add: call_events_def write_t_fail [OF assms])

lemma call_events_noop:
  "buf = None \<or> count = 0 \<Longrightarrow> call_events e stty buf count discard_rx s = []"
  by (auto simp: call_events_def uu_spi_serial_tty_write_def split: option.splits)

subsection \<open>The transfer length and the returned value\<close>

lemma sint_positive: "0 <s (count :: c_int) \<Longrightarrow> sint count = int (unat count)"
proof -
  assume "0 <s count"
  then have pos: "0 \<le> sint count"
    by (simp add: word_sless_alt)
  have "sint count < 2 ^ LENGTH(32)"
    using sint_less [of count] by simp
  with pos have "take_bit LENGTH(32) (sint count) = sint count"
    by (simp only: take_bit_int_eq_self)
  then have "uint count = sint count"
    by (simp only: uint_sint)
  then have "sint count = uint count"
    by (rule sym)
  also have "uint count = int (unat count)"
    by (rule uint_nat)
  finally show ?thesis .
qed

lemma positive_nonzero: "0 <s (count :: c_int) \<Longrightarrow> count \<noteq> 0"
  by (auto simp: word_sless_alt)

lemma unat_xfer_len:
  assumes "0 <s count"
  shows "unat (xfer_len count discard_rx) =
           (if discard_rx \<noteq> 0 then min 64 (unat count) else unat count)"
proof -
  have eq: "sint count = int (unat count)"
    using assms by (rule sint_positive)
  have "64 <s count \<longleftrightarrow> 64 < sint count"
    by (simp add: word_sless_alt)
  also have "\<dots> \<longleftrightarrow> 64 < unat count"
    unfolding eq by linarith
  finally have "64 <s count \<longleftrightarrow> 64 < unat count" .
  then show ?thesis
    by (simp add: xfer_len_def min_int_def SPI_TTY_MSG_LEN_def)
qed

lemma xfer_len_short:
  assumes "count \<le>s 64"
  shows "xfer_len count discard_rx = count"
proof -
  from assms have "\<not> 64 <s count"
    by (simp add: word_sless_alt word_sle_eq)
  then show ?thesis
    by (simp add: xfer_len_def min_int_def SPI_TTY_MSG_LEN_def)
qed

lemma rx_requests_call:
  assumes "count \<noteq> 0"
  shows "rx_requests (call_events e stty (Some b) count discard_rx s)
           = [unat (xfer_len count discard_rx)]"
proof -
  consider (rx) "\<not> alloc_rx_ok e"
    | (m) "alloc_rx_ok e" "\<not> alloc_m_ok e"
    | (t) "alloc_rx_ok e" "alloc_m_ok e" "\<not> alloc_t_ok e"
    | (ok) "alloc_rx_ok e" "alloc_m_ok e" "alloc_t_ok e"
    by blast
  then show ?thesis
  proof cases
    case rx
    then show ?thesis
      by (simp add: call_events_rx_fail [OF assms])
  next
    case m
    then show ?thesis
      by (simp add: call_events_m_fail [OF assms])
  next
    case t
    then show ?thesis
      by (simp add: call_events_t_fail [OF assms])
  next
    case ok
    then show ?thesis
      by (simp add: call_events_ok [OF assms] rx_requests_append rx_requests_feed
          split: option.split)
  qed
qed

lemma write_result:
  assumes "count \<noteq> 0"
  shows "fst (uu_spi_serial_tty_write e stty (Some b) count discard_rx s) =
           (if alloc_rx_ok e \<and> alloc_m_ok e \<and> alloc_t_ok e then xfer_len count discard_rx
            else - ENOMEM)"
proof -
  consider (rx) "\<not> alloc_rx_ok e"
    | (m) "alloc_rx_ok e" "\<not> alloc_m_ok e"
    | (t) "alloc_rx_ok e" "alloc_m_ok e" "\<not> alloc_t_ok e"
    | (ok) "alloc_rx_ok e" "alloc_m_ok e" "alloc_t_ok e"
    by blast
  then show ?thesis
  proof cases
    case rx
    then show ?thesis
      by (simp add: write_rx_fail [OF assms])
  next
    case m
    then show ?thesis
      by (simp add: write_m_fail [OF assms])
  next
    case t
    then show ?thesis
      by (simp add: write_t_fail [OF assms])
  next
    case ok
    then show ?thesis
      by (simp add: write_ok [OF assms])
  qed
qed

subsection \<open>The enquiry buffer\<close>

lemma unat_sizeof_enq_buf: "unat sizeof_enq_buf = 65"
  by (simp add: sizeof_enq_buf_def SPI_TTY_MSG_LEN_def)

lemma enq_buf_bytes:
  "(memset (replicate 65 0) SPI_TTY_ENQUIRY 65)[64 := 0] = replicate 64 0x05 @ [0x00]"
proof -
  have "memset (replicate 65 0) SPI_TTY_ENQUIRY 65 = replicate 65 0x05"
    by (simp add: memset_def SPI_TTY_ENQUIRY_def)
  also have "replicate 65 (0x05 :: u8) = replicate (Suc 64) 0x05"
    by simp
  also have "\<dots> = replicate 64 0x05 @ [0x05]"
    by (simp only: replicate_Suc replicate_append_same)
  finally have "(memset (replicate 65 0) SPI_TTY_ENQUIRY 65)[64 := 0]
      = (replicate 64 0x05 @ [0x05])[length (replicate 64 (0x05 :: u8)) := 0]"
    by simp
  then show ?thesis
    by (simp only: list_update_length)
qed

lemma probe_enq_buf:
  assumes "spi_tty_probe pe dev s = (r, Some stty, s')"
  shows "enq_buf stty = replicate 64 0x05 @ [0x00]"
  using assms
  by (auto simp: spi_tty_probe_def Let_def kmalloc_def unat_sizeof_enq_buf enq_buf_bytes
      split: if_splits sum.splits)

lemma irq_events_eq:
  "irq_events e stty s = call_events e stty (Some (enq_buf stty)) sizeof_enq_buf 0 s"
  by (simp add: irq_events_def call_events_def spi_tty_irq_handler_def split_beta)

lemma irq_frames:
  assumes "enq_buf stty = replicate 64 0x05 @ [0x00]"
    and "alloc_rx_ok e" and "alloc_m_ok e" and "alloc_t_ok e"
  shows "map (map frame) (spi_syncs (irq_events e stty s)) = [[replicate 64 0x05 @ [0x00]]]"
    and "map (map len) (spi_syncs (irq_events e stty s)) = [[65]]"
proof -
  have nz: "sizeof_enq_buf \<noteq> 0"
    by (simp add: sizeof_enq_buf_def SPI_TTY_MSG_LEN_def)
  have n: "xfer_len sizeof_enq_buf 0 = 65"
    by (simp add: xfer_len_def sizeof_enq_buf_def SPI_TTY_MSG_LEN_def)
  have syncs: "spi_syncs (irq_events e stty s)
      = [[make_transfer (replicate 64 0x05 @ [0x00]) 65 0]]"
    by (simp add: irq_events_eq call_events_ok [OF nz assms(2-4)] assms(1) n
        spi_syncs_append spi_syncs_feed split: option.split)
  show "map (map frame) (spi_syncs (irq_events e stty s)) = [[replicate 64 0x05 @ [0x00]]]"
    by (simp add: syncs frame_def make_transfer_def)
  show "map (map len) (spi_syncs (irq_events e stty s)) = [[65]]"
    by (simp add: syncs make_transfer_def)
qed

subsection \<open>The lock discipline\<close>

lemma disciplined_feed: "disciplined True (feed_events tty rx @ evs) = disciplined True evs"
proof -
  have "disciplined True (map (Tty_insert_flip_char tty) cs @ evs') = disciplined True evs'"
    for cs evs'
    by (induction cs) simp_all
  then show ?thesis
    by (simp add: feed_events_def)
qed

lemma disciplined_call: "disciplined False (call_events e stty buf count discard_rx s)"
proof (cases "buf = None \<or> count = 0")
  case True
  then show ?thesis
    by (simp add: call_events_noop)
next
  case False
  then obtain b where buf: "buf = Some b" and count: "count \<noteq> 0"
    by auto
  consider (rx) "\<not> alloc_rx_ok e"
    | (m) "alloc_rx_ok e" "\<not> alloc_m_ok e"
    | (t) "alloc_rx_ok e" "alloc_m_ok e" "\<not> alloc_t_ok e"
    | (ok) "alloc_rx_ok e" "alloc_m_ok e" "alloc_t_ok e"
    by blast
  then show ?thesis
  proof cases
    case rx
    then show ?thesis
      by (simp add: buf call_events_rx_fail [OF count])
  next
    case m
    then show ?thesis
      by (simp add: buf call_events_m_fail [OF count])
  next
    case t
    then show ?thesis
      by (simp add: buf call_events_t_fail [OF count])
  next
    case ok
    then show ?thesis
      by (simp add: buf call_events_ok [OF count] disciplined_feed split: option.split)
  qed
qed

lemma count_list_feed:
  "count_list (feed_events tty rx) Mutex_lock = 0"
  "count_list (feed_events tty rx) Mutex_unlock = 0"
  by (simp_all add: feed_events_def count_list_0_iff image_iff)

lemma lock_counts:
  "count_list (call_events e stty buf count discard_rx s) Mutex_lock
     = (if buf = None \<or> count = 0 then 0 else 1)"
  "count_list (call_events e stty buf count discard_rx s) Mutex_unlock
     = (if buf = None \<or> count = 0 then 0 else 1)"
proof -
  have "count_list (call_events e stty buf count discard_rx s) Mutex_lock
        = (if buf = None \<or> count = 0 then 0 else 1)
      \<and> count_list (call_events e stty buf count discard_rx s) Mutex_unlock
        = (if buf = None \<or> count = 0 then 0 else 1)"
  proof (cases "buf = None \<or> count = 0")
    case True
    then show ?thesis
      by (simp add: call_events_noop)
  next
    case False
    then obtain b where buf: "buf = Some b" and count: "count \<noteq> 0"
      by auto
    consider (rx) "\<not> alloc_rx_ok e"
      | (m) "alloc_rx_ok e" "\<not> alloc_m_ok e"
      | (t) "alloc_rx_ok e" "alloc_m_ok e" "\<not> alloc_t_ok e"
      | (ok) "alloc_rx_ok e" "alloc_m_ok e" "alloc_t_ok e"
      by blast
    then show ?thesis
    proof cases
      case rx
      then show ?thesis
        by (simp add: buf count call_events_rx_fail [OF count])
    next
      case m
      then show ?thesis
        by (simp add: buf count call_events_m_fail [OF count])
    next
      case t
      then show ?thesis
        by (simp add: buf count call_events_t_fail [OF count])
    next
      case ok
      then show ?thesis
        by (simp add: buf count call_events_ok [OF count] count_list_feed split: option.split)
    qed
  qed
  then show "count_list (call_events e stty buf count discard_rx s) Mutex_lock
        = (if buf = None \<or> count = 0 then 0 else 1)"
    and "count_list (call_events e stty buf count discard_rx s) Mutex_unlock
        = (if buf = None \<or> count = 0 then 0 else 1)"
    by simp_all
qed

lemma disciplined_head:
  assumes "disciplined held (ev # evs)" and "ev \<noteq> Mutex_lock"
  shows "held"
  using assms by (cases ev) simp_all

lemma disciplined_tail:
  assumes "disciplined held (ev # evs)" and "ev \<noteq> Mutex_lock" and "ev \<noteq> Mutex_unlock"
  shows "disciplined held evs"
  using assms by (cases ev) auto

lemma step_keeps_discipline:
  assumes "step c c'" and "\<And>t. disciplined (owner c = Some t) (pending c t)"
  shows "disciplined (owner c' = Some u) (pending c' u)"
  using assms
proof (induction rule: step.induct)
  case (acquire c t evs)
  from acquire(3) [of t] acquire(1) have "disciplined True evs"
    by simp
  moreover from acquire(3) [of u] acquire(2) have "u \<noteq> t \<Longrightarrow> disciplined False (pending c u)"
    by simp
  ultimately show ?case
    by simp
next
  case (release c t evs)
  from release(2) [of t] release(1) have held: "owner c = Some t" and rest: "disciplined False evs"
    by simp_all
  from release(2) [of u] held have "u \<noteq> t \<Longrightarrow> disciplined False (pending c u)"
    by simp
  with rest show ?case
    by simp
next
  case (perform c t ev evs)
  from perform(4) [of t] perform(1) have "disciplined (owner c = Some t) (ev # evs)"
    by simp
  then have "disciplined (owner c = Some t) evs"
    using perform(2,3) by (rule disciplined_tail)
  moreover note perform(4) [of u]
  ultimately show ?case
    by simp
qed

lemma disciplined_append:
  "disciplined held xs \<Longrightarrow> disciplined False ys \<Longrightarrow> disciplined held (xs @ ys)"
  by (induction held xs rule: disciplined.induct) auto

lemma disciplined_calls: "disciplined False (concat (map events_of cs))"
  by (induction cs) (simp_all add: events_of_def disciplined_call disciplined_append)

lemma reachable_disciplined:
  "reachable calls c \<Longrightarrow> disciplined (owner c = Some t) (pending c t)"
proof (induction arbitrary: t rule: reachable.induct)
  case (initial calls)
  show ?case
    by (simp add: start_def disciplined_calls)
next
  case (later calls c c')
  from later(2) later(3) show ?case
    by (rule step_keeps_discipline)
qed

section \<open>Properties\<close>

text \<open>
  C7. A call of the write path with a NULL buffer or a zero count returns 0 and hands
  back the instance and the kernel state as they were: no exchange, no allocation, no
  mutex operation.
\<close>

theorem write_empty_is_noop:
  "buf = None \<or> count = 0 \<Longrightarrow>
     uu_spi_serial_tty_write e stty buf count discard_rx s = (0, stty, s)"
  by (auto simp: uu_spi_serial_tty_write_def split: option.splits)

theorem write_empty_is_noop_witness:
  "uu_spi_serial_tty_write
     \<lparr>alloc_rx_ok = True, alloc_m_ok = True, alloc_t_ok = True,
      spi_sync_result = (\<lambda>dev m. (0, []))\<rparr>
     \<lparr>spi = 0, tty_minor = 0, tty_dev = 0, enq_buf = [], mtx = False\<rparr>
     (Some [1, 2]) 0 1
     \<lparr>dev_count = 1, ttys = Map.empty, live = [], trace = []\<rparr>
   = (0, \<lparr>spi = 0, tty_minor = 0, tty_dev = 0, enq_buf = [], mtx = False\<rparr>,
      \<lparr>dev_count = 1, ttys = Map.empty, live = [], trace = []\<rparr>)
   \<and> uu_spi_serial_tty_write
     \<lparr>alloc_rx_ok = True, alloc_m_ok = True, alloc_t_ok = True,
      spi_sync_result = (\<lambda>dev m. (0, []))\<rparr>
     \<lparr>spi = 0, tty_minor = 0, tty_dev = 0, enq_buf = [], mtx = False\<rparr>
     None 5 0
     \<lparr>dev_count = 1, ttys = Map.empty, live = [], trace = []\<rparr>
   = (0, \<lparr>spi = 0, tty_minor = 0, tty_dev = 0, enq_buf = [], mtx = False\<rparr>,
      \<lparr>dev_count = 1, ttys = Map.empty, live = [], trace = []\<rparr>)"
  using write_empty_is_noop [of "Some [1, 2]" 0] write_empty_is_noop [of None 5]
  by simp

text \<open>
  C10. For every index, the lookup returns the slot \<open>ttys[0]\<close>: the branch that
  returns NULL is never reached.
\<close>

theorem lookup_ignores_index:
  "spi_serial_tty_lookup s idx = ttys s 0"
  by (simp add: spi_serial_tty_lookup_def)

text \<open>
  C4. When the three allocations of a call succeed, whatever the SPI core answers to the
  exchange (any return code, any bytes), the call returns the transfer length it
  attempted: the length of the one transfer handed to the SPI core. The error code of
  the exchange never reaches the caller.
\<close>

theorem transport_error_not_propagated:
  assumes "count \<noteq> 0"
    and "alloc_rx_ok e" and "alloc_m_ok e" and "alloc_t_ok e"
  shows "fst (uu_spi_serial_tty_write (e\<lparr>spi_sync_result := answer\<rparr>) stty (Some b) count discard_rx s)
           = xfer_len count discard_rx
       \<and> map (map len)
             (spi_syncs (call_events (e\<lparr>spi_sync_result := answer\<rparr>) stty (Some b) count discard_rx s))
           = [[xfer_len count discard_rx]]"
proof -
  let ?e = "e\<lparr>spi_sync_result := answer\<rparr>"
  from assms have ok: "count \<noteq> 0" "alloc_rx_ok ?e" "alloc_m_ok ?e" "alloc_t_ok ?e"
    by simp_all
  have "fst (uu_spi_serial_tty_write ?e stty (Some b) count discard_rx s) = xfer_len count discard_rx"
    by (simp only: write_ok [OF ok] fst_conv)
  moreover have "map (map len) (spi_syncs (call_events ?e stty (Some b) count discard_rx s))
      = [[xfer_len count discard_rx]]"
    by (simp add: call_events_ok [OF ok] spi_syncs_append spi_syncs_feed len_make_transfer
        split: option.split)
  ultimately show ?thesis
    by (rule conjI)
qed

theorem transport_error_not_propagated_witness:
  "fst (uu_spi_serial_tty_write
          \<lparr>alloc_rx_ok = True, alloc_m_ok = True, alloc_t_ok = True,
           spi_sync_result = (\<lambda>dev m. (- 5, []))\<rparr>
          \<lparr>spi = 0, tty_minor = 0, tty_dev = 0, enq_buf = [], mtx = False\<rparr>
          (Some [0x68, 0x69]) 2 1
          \<lparr>dev_count = 1, ttys = Map.empty, live = [], trace = []\<rparr>) = 2"
  using transport_error_not_propagated
    [of 2 "\<lparr>alloc_rx_ok = True, alloc_m_ok = True, alloc_t_ok = True,
            spi_sync_result = (\<lambda>dev m. (0, []))\<rparr>"
        "\<lambda>dev m. (- 5, [])"
        "\<lparr>spi = 0, tty_minor = 0, tty_dev = 0, enq_buf = [], mtx = False\<rparr>"
        "[0x68, 0x69]" 1
        "\<lparr>dev_count = 1, ttys = Map.empty, live = [], trace = []\<rparr>"]
  by (simp add: xfer_len_def min_int_def SPI_TTY_MSG_LEN_def word_sless_alt)

text \<open>
  C5. In a poll (\<open>discard_rx = 0\<close>) whose allocations succeed, with a tty in
  \<open>ttys[0]\<close>, the bytes handed to \<open>tty_insert_flip_char\<close> are, in order,
  exactly the non-null bytes of the inbound buffer from index 1 on, all for that tty;
  the inbound buffer has the length of the transfer. For the inbound bytes
  00 41 00 42 00 the tty receives 41 42.
\<close>

theorem poll_feeds_nonnull_bytes:
  assumes "count \<noteq> 0"
    and "alloc_rx_ok e" and "alloc_m_ok e" and "alloc_t_ok e"
    and "ttys s 0 = Some tty"
  shows "flip_chars (call_events e stty (Some b) count 0 s)
           = map (Pair tty)
               (filter (\<lambda>c. c \<noteq> 0) (drop 1 (inbound e stty (make_transfer b count 0))))
       \<and> length (inbound e stty (make_transfer b count 0)) = unat count"
proof -
  have n: "xfer_len count 0 = count"
    by (simp add: xfer_len_def)
  have "flip_chars (call_events e stty (Some b) count 0 s)
      = map (Pair tty) (filter (\<lambda>c. c \<noteq> 0) (drop 1 (inbound e stty (make_transfer b count 0))))"
    using assms(5)
    by (simp add: call_events_ok [OF assms(1-4)] n flip_chars_append flip_chars_feed)
  moreover have "length (inbound e stty (make_transfer b count 0)) = unat count"
    by (simp add: inbound_def length_fill_rx len_make_transfer)
  ultimately show ?thesis
    by (rule conjI)
qed

theorem poll_feeds_nonnull_bytes_witness:
  "flip_chars (call_events
      \<lparr>alloc_rx_ok = True, alloc_m_ok = True, alloc_t_ok = True,
       spi_sync_result = (\<lambda>dev m. (0, [0x00, 0x41, 0x00, 0x42, 0x00]))\<rparr>
      \<lparr>spi = 0, tty_minor = 0, tty_dev = 0, enq_buf = [], mtx = False\<rparr>
      (Some [0x05, 0x05, 0x05, 0x05, 0x00]) 5 0
      \<lparr>dev_count = 1, ttys = [0 \<mapsto> 7], live = [], trace = []\<rparr>)
   = [(7, 0x41), (7, 0x42)]"
  using poll_feeds_nonnull_bytes
    [of 5 "\<lparr>alloc_rx_ok = True, alloc_m_ok = True, alloc_t_ok = True,
            spi_sync_result = (\<lambda>dev m. (0, [0x00, 0x41, 0x00, 0x42, 0x00]))\<rparr>"
        "\<lparr>dev_count = 1, ttys = [0 \<mapsto> 7], live = [], trace = []\<rparr>" 7
        "\<lparr>spi = 0, tty_minor = 0, tty_dev = 0, enq_buf = [], mtx = False\<rparr>"
        "[0x05, 0x05, 0x05, 0x05, 0x00]"]
  by (simp add: inbound_def fill_rx_def len_make_transfer)

text \<open>
  C9. Every transfer of every message the write path hands to the SPI core has a delay
  of 25 microseconds, and a clock of 115200 when \<open>discard_rx\<close> is set and of
  9600 when it is not.
\<close>

theorem transfer_delay_and_clock:
  "\<forall>m \<in> set (spi_syncs (call_events e stty buf count discard_rx s)).
     \<forall>t \<in> set m.
       delay_usecs t = 25 \<and> speed_hz t = (if discard_rx \<noteq> 0 then 115200 else 9600)"
proof (cases "buf = None \<or> count = 0")
  case True
  then show ?thesis
    by (simp add: call_events_noop)
next
  case False
  then obtain b where buf: "buf = Some b" and count: "count \<noteq> 0"
    by auto
  have built: "delay_usecs (make_transfer b n discard_rx) = 25
      \<and> speed_hz (make_transfer b n discard_rx) = (if discard_rx \<noteq> 0 then 115200 else 9600)"
    for n
    by (simp add: make_transfer_def SPI_TTY_DELAY_US_def SPI_TTY_FREQ_HZ_TX_def
        SPI_TTY_FREQ_HZ_RX_def)
  consider (rx) "\<not> alloc_rx_ok e"
    | (m) "alloc_rx_ok e" "\<not> alloc_m_ok e"
    | (t) "alloc_rx_ok e" "alloc_m_ok e" "\<not> alloc_t_ok e"
    | (ok) "alloc_rx_ok e" "alloc_m_ok e" "alloc_t_ok e"
    by blast
  then show ?thesis
  proof cases
    case rx
    then show ?thesis
      by (simp add: buf call_events_rx_fail [OF count])
  next
    case m
    then show ?thesis
      by (simp add: buf call_events_m_fail [OF count])
  next
    case t
    then show ?thesis
      by (simp add: buf call_events_t_fail [OF count])
  next
    case ok
    then show ?thesis
      using built
      by (simp add: buf call_events_ok [OF count] spi_syncs_append spi_syncs_feed
          split: option.split)
  qed
qed

theorem transfer_delay_and_clock_witness:
  "map (map (\<lambda>t. (len t, tx_buf t, delay_usecs t, speed_hz t)))
     (spi_syncs (call_events
        \<lparr>alloc_rx_ok = True, alloc_m_ok = True, alloc_t_ok = True,
         spi_sync_result = (\<lambda>dev m. (0, []))\<rparr>
        \<lparr>spi = 0, tty_minor = 0, tty_dev = 0, enq_buf = [], mtx = False\<rparr>
        (Some [0x68, 0x69]) 2 1
        \<lparr>dev_count = 1, ttys = Map.empty, live = [], trace = []\<rparr>))
   = [[(2, [0x68, 0x69], 25, 115200)]]"
  using transfer_delay_and_clock
    [of "\<lparr>alloc_rx_ok = True, alloc_m_ok = True, alloc_t_ok = True,
            spi_sync_result = (\<lambda>dev m. (0, []))\<rparr>"
        "\<lparr>spi = 0, tty_minor = 0, tty_dev = 0, enq_buf = [], mtx = False\<rparr>"
        "Some [0x68, 0x69]" 2 1
        "\<lparr>dev_count = 1, ttys = Map.empty, live = [], trace = []\<rparr>"]
  by (simp add: call_events_ok make_transfer_def xfer_len_def min_int_def SPI_TTY_MSG_LEN_def
      word_sless_alt)

text \<open>
  C6, as stated, fails: it has every discarding write of a non-empty payload of at
  most 64 bytes return the payload length, and a one-byte write whose inbound buffer
  cannot be allocated returns \<open>-ENOMEM\<close>.
\<close>

theorem discard_write_fails_without_memory:
  "fst (uu_spi_serial_tty_write
          \<lparr>alloc_rx_ok = False, alloc_m_ok = True, alloc_t_ok = True,
           spi_sync_result = (\<lambda>dev m. (0, []))\<rparr>
          \<lparr>spi = 0, tty_minor = 0, tty_dev = 0, enq_buf = [], mtx = False\<rparr>
          (Some [0x68]) 1 1
          \<lparr>dev_count = 1, ttys = Map.empty, live = [], trace = []\<rparr>) = - ENOMEM
   \<and> - ENOMEM \<noteq> (1 :: c_int)"
  by (simp add: write_rx_fail ENOMEM_def)

text \<open>
  C6, as the code has it. For a payload of positive length, the one inbound buffer the
  call asks for has \<open>min 64 count\<close> bytes when \<open>discard_rx\<close> is set and
  \<open>count\<close> bytes otherwise. A discarding write of at most 64 bytes therefore asks
  for at most 64 bytes, and returns \<open>count\<close> when the three allocations succeed
  and \<open>-ENOMEM\<close> when one of them fails.
\<close>

theorem inbound_buffer_length:
  assumes "0 <s count"
  shows "rx_requests (call_events e stty (Some b) count discard_rx s)
           = [if discard_rx \<noteq> 0 then min 64 (unat count) else unat count]
       \<and> (discard_rx \<noteq> 0 \<and> count \<le>s 64 \<longrightarrow>
            fst (uu_spi_serial_tty_write e stty (Some b) count discard_rx s)
              = (if alloc_rx_ok e \<and> alloc_m_ok e \<and> alloc_t_ok e then count else - ENOMEM))"
proof -
  have nz: "count \<noteq> 0"
    using assms by (rule positive_nonzero)
  have "rx_requests (call_events e stty (Some b) count discard_rx s)
      = [if discard_rx \<noteq> 0 then min 64 (unat count) else unat count]"
    by (simp only: rx_requests_call [OF nz] unat_xfer_len [OF assms])
  moreover have "discard_rx \<noteq> 0 \<and> count \<le>s 64 \<longrightarrow>
      fst (uu_spi_serial_tty_write e stty (Some b) count discard_rx s)
        = (if alloc_rx_ok e \<and> alloc_m_ok e \<and> alloc_t_ok e then count else - ENOMEM)"
    by (simp add: write_result [OF nz] xfer_len_short)
  ultimately show ?thesis
    by (rule conjI)
qed

theorem inbound_buffer_length_witness:
  "rx_requests (call_events
      \<lparr>alloc_rx_ok = True, alloc_m_ok = True, alloc_t_ok = True,
       spi_sync_result = (\<lambda>dev m. (0, []))\<rparr>
      \<lparr>spi = 0, tty_minor = 0, tty_dev = 0, enq_buf = [], mtx = False\<rparr>
      (Some [0x68, 0x69, 0x0A]) 3 1
      \<lparr>dev_count = 1, ttys = Map.empty, live = [], trace = []\<rparr>) = [3]
   \<and> fst (uu_spi_serial_tty_write
      \<lparr>alloc_rx_ok = True, alloc_m_ok = True, alloc_t_ok = True,
       spi_sync_result = (\<lambda>dev m. (0, []))\<rparr>
      \<lparr>spi = 0, tty_minor = 0, tty_dev = 0, enq_buf = [], mtx = False\<rparr>
      (Some [0x68, 0x69, 0x0A]) 3 1
      \<lparr>dev_count = 1, ttys = Map.empty, live = [], trace = []\<rparr>) = 3"
  using inbound_buffer_length
    [of 3 "\<lparr>alloc_rx_ok = True, alloc_m_ok = True, alloc_t_ok = True,
            spi_sync_result = (\<lambda>dev m. (0, []))\<rparr>"
        "\<lparr>spi = 0, tty_minor = 0, tty_dev = 0, enq_buf = [], mtx = False\<rparr>"
        "[0x68, 0x69, 0x0A]" 1
        "\<lparr>dev_count = 1, ttys = Map.empty, live = [], trace = []\<rparr>"]
  by (simp add: word_sless_alt word_sle_eq)

text \<open>
  C1, as stated, fails: it gives the enquiry frame 64 bytes, 63 of them 0x05. The
  instance a probe sets up polls with 65 bytes: \<open>enq_buf\<close> has
  \<open>SPI_TTY_MSG_LEN + 1\<close> bytes, all of them go out, and 64 of them are 0x05.
\<close>

theorem enquiry_frame_has_65_bytes:
  "map (map frame)
     (spi_syncs (irq_events
        \<lparr>alloc_rx_ok = True, alloc_m_ok = True, alloc_t_ok = True,
         spi_sync_result = (\<lambda>dev m. (0, []))\<rparr>
        (the (fst (snd (spi_tty_probe
           \<lparr>alloc_stty_ok = True, request_irq_ret = 0, register_device_ret = Inr 9\<rparr> 3
           \<lparr>dev_count = 0, ttys = Map.empty, live = [], trace = []\<rparr>))))
        \<lparr>dev_count = 1, ttys = Map.empty, live = [Spi_tty_obj], trace = []\<rparr>))
     = [[replicate 64 0x05 @ [0x00]]]
   \<and> length (replicate 64 (0x05 :: u8) @ [0x00]) = 65
   \<and> replicate 64 (0x05 :: u8) @ [0x00] \<noteq> replicate 63 0x05 @ [0x00]"
proof -
  let ?pe = "\<lparr>alloc_stty_ok = True, request_irq_ret = 0, register_device_ret = Inr 9\<rparr>"
  let ?before = "\<lparr>dev_count = 0, ttys = Map.empty, live = [], trace = []\<rparr>"
  let ?e = "\<lparr>alloc_rx_ok = True, alloc_m_ok = True, alloc_t_ok = True,
             spi_sync_result = (\<lambda>dev m. (0, []))\<rparr>"
  obtain r stty s' where probe: "spi_tty_probe ?pe 3 ?before = (r, Some stty, s')"
    by (simp add: spi_tty_probe_def SPI_SERIAL_TTY_MINORS_def kmalloc_def Let_def)
  then have "enq_buf stty = replicate 64 0x05 @ [0x00]"
    by (rule probe_enq_buf)
  then have "map (map frame) (spi_syncs (irq_events ?e stty
        \<lparr>dev_count = 1, ttys = Map.empty, live = [Spi_tty_obj], trace = []\<rparr>))
      = [[replicate 64 0x05 @ [0x00]]]"
    by (rule irq_frames) simp_all
  moreover have "the (fst (snd (spi_tty_probe ?pe 3 ?before))) = stty"
    by (simp only: probe snd_conv fst_conv option.sel)
  moreover have "replicate 64 (0x05 :: u8) @ [0x00] \<noteq> replicate 63 0x05 @ [0x00]"
  proof
    assume "replicate 64 (0x05 :: u8) @ [0x00] = replicate 63 0x05 @ [0x00]"
    then have "length (replicate 64 (0x05 :: u8) @ [0x00]) = length (replicate 63 (0x05 :: u8) @ [0x00])"
      by (rule arg_cong)
    then show False
      by simp
  qed
  ultimately show ?thesis
    by simp
qed

text \<open>
  C1, as the code has it. For an instance set up by a successful probe, every message
  a run of the interrupt handler hands to the SPI core has one transfer, of length 65,
  whose outgoing bytes are 64 bytes 0x05 followed by one 0x00; a run whose allocations
  succeed hands over exactly one message.
\<close>

theorem enquiry_frame:
  assumes "spi_tty_probe pe dev s0 = (r, Some stty, s1)"
  shows "(\<forall>m \<in> set (spi_syncs (irq_events e stty s)).
            map frame m = [replicate 64 0x05 @ [0x00]] \<and> map len m = [65])
       \<and> (alloc_rx_ok e \<and> alloc_m_ok e \<and> alloc_t_ok e \<longrightarrow>
            length (spi_syncs (irq_events e stty s)) = 1)"
proof -
  have buf: "enq_buf stty = replicate 64 0x05 @ [0x00]"
    using assms by (rule probe_enq_buf)
  have nz: "sizeof_enq_buf \<noteq> 0"
    by (simp add: sizeof_enq_buf_def SPI_TTY_MSG_LEN_def)
  consider (rx) "\<not> alloc_rx_ok e"
    | (m) "alloc_rx_ok e" "\<not> alloc_m_ok e"
    | (t) "alloc_rx_ok e" "alloc_m_ok e" "\<not> alloc_t_ok e"
    | (ok) "alloc_rx_ok e" "alloc_m_ok e" "alloc_t_ok e"
    by blast
  then show ?thesis
  proof cases
    case rx
    then show ?thesis
      by (simp add: irq_events_eq call_events_rx_fail [OF nz])
  next
    case m
    then show ?thesis
      by (simp add: irq_events_eq call_events_m_fail [OF nz])
  next
    case t
    then show ?thesis
      by (simp add: irq_events_eq call_events_t_fail [OF nz])
  next
    case ok
    have frames: "map (map frame) (spi_syncs (irq_events e stty s)) = [[replicate 64 0x05 @ [0x00]]]"
      and lens: "map (map len) (spi_syncs (irq_events e stty s)) = [[65]]"
      using buf ok by (rule irq_frames)+
    from frames obtain m where one: "spi_syncs (irq_events e stty s) = [m]"
      by (cases "spi_syncs (irq_events e stty s)") auto
    with frames lens show ?thesis
      by simp
  qed
qed

theorem enquiry_frame_witness:
  "map (map len)
     (spi_syncs (irq_events
        \<lparr>alloc_rx_ok = True, alloc_m_ok = True, alloc_t_ok = True,
         spi_sync_result = (\<lambda>dev m. (0, []))\<rparr>
        \<lparr>spi = 3, tty_minor = 0, tty_dev = 9,
         enq_buf = (memset (replicate 65 0) SPI_TTY_ENQUIRY 65)[64 := 0], mtx = False\<rparr>
        \<lparr>dev_count = 1, ttys = Map.empty, live = [Spi_tty_obj], trace = []\<rparr>))
     = [[65]]"
proof -
  let ?pe = "\<lparr>alloc_stty_ok = True, request_irq_ret = 0, register_device_ret = Inr 9\<rparr>"
  let ?before = "\<lparr>dev_count = 0, ttys = Map.empty, live = [], trace = []\<rparr>"
  let ?e = "\<lparr>alloc_rx_ok = True, alloc_m_ok = True, alloc_t_ok = True,
            spi_sync_result = (\<lambda>dev m. (0, []))\<rparr>"
  let ?stty = "\<lparr>spi = 3, tty_minor = 0, tty_dev = 9,
         enq_buf = (memset (replicate 65 0) SPI_TTY_ENQUIRY 65)[64 := 0], mtx = False\<rparr>"
  let ?now = "\<lparr>dev_count = 1, ttys = Map.empty, live = [Spi_tty_obj], trace = []\<rparr>"
  have "spi_tty_probe ?pe 3 ?before =
      (0, Some ?stty,
       \<lparr>dev_count = 1, ttys = Map.empty, live = [Spi_tty_obj],
        trace = [Kmalloc Spi_tty_obj True]\<rparr>)"
    by (simp add: spi_tty_probe_def SPI_SERIAL_TTY_MINORS_def kmalloc_def emit_def Let_def
        unat_sizeof_enq_buf)
  then have every: "(\<forall>m \<in> set (spi_syncs (irq_events ?e ?stty ?now)).
            map frame m = [replicate 64 0x05 @ [0x00]] \<and> map len m = [65])
       \<and> (alloc_rx_ok ?e \<and> alloc_m_ok ?e \<and> alloc_t_ok ?e \<longrightarrow>
            length (spi_syncs (irq_events ?e ?stty ?now)) = 1)"
    by (rule enquiry_frame)
  then have "length (spi_syncs (irq_events ?e ?stty ?now)) = 1"
    by simp
  then obtain m where one: "spi_syncs (irq_events ?e ?stty ?now) = [m]"
    by (cases "spi_syncs (irq_events ?e ?stty ?now)") auto
  with every show ?thesis
    by simp
qed

text \<open>
  C3, as stated, fails: it has a probe at capacity fail with a Busy error. With one
  instance counted the probe returns \<open>-ENOMEM\<close>, which is not \<open>-EBUSY\<close>.
\<close>

theorem probe_at_capacity_is_not_busy:
  "fst (spi_tty_probe
          \<lparr>alloc_stty_ok = True, request_irq_ret = 0, register_device_ret = Inr 9\<rparr> 3
          \<lparr>dev_count = 1, ttys = Map.empty, live = [Spi_tty_obj], trace = []\<rparr>) = - ENOMEM
   \<and> - ENOMEM \<noteq> - EBUSY"
  by (simp add: spi_tty_probe_def SPI_SERIAL_TTY_MINORS_def ENOMEM_def EBUSY_def)

text \<open>
  C3, as the code has it. A probe that finds the instance count at the capacity of 1
  (or above) returns \<open>-ENOMEM\<close>, creates no instance and leaves the kernel state,
  the count included, as it was.
\<close>

theorem probe_at_capacity:
  "SPI_SERIAL_TTY_MINORS \<le> dev_count s \<Longrightarrow> spi_tty_probe pe dev s = (- ENOMEM, None, s)"
  by (simp add: spi_tty_probe_def)

theorem probe_at_capacity_witness:
  "spi_tty_probe
     \<lparr>alloc_stty_ok = True, request_irq_ret = 0, register_device_ret = Inr 9\<rparr> 3
     \<lparr>dev_count = 1, ttys = Map.empty, live = [Spi_tty_obj], trace = []\<rparr>
   = (- ENOMEM, None, \<lparr>dev_count = 1, ttys = Map.empty, live = [Spi_tty_obj], trace = []\<rparr>)"
  using probe_at_capacity
    [of "\<lparr>dev_count = 1, ttys = Map.empty, live = [Spi_tty_obj], trace = []\<rparr>"
        "\<lparr>alloc_stty_ok = True, request_irq_ret = 0, register_device_ret = Inr 9\<rparr>" 3]
  by (simp add: SPI_SERIAL_TTY_MINORS_def)

text \<open>
  C2. A one-byte write whose inbound buffer is allocated and whose message allocation
  fails: the call returns \<open>-ENOMEM\<close>, releases the mutex and performs no
  exchange, but the inbound buffer is still allocated when it returns.
\<close>

theorem message_allocation_failure_leaks_rx_buf:
  "uu_spi_serial_tty_write
     \<lparr>alloc_rx_ok = True, alloc_m_ok = False, alloc_t_ok = True,
      spi_sync_result = (\<lambda>dev m. (0, []))\<rparr>
     \<lparr>spi = 0, tty_minor = 0, tty_dev = 0, enq_buf = [], mtx = False\<rparr>
     (Some [0x68]) 1 1
     \<lparr>dev_count = 1, ttys = Map.empty, live = [], trace = []\<rparr>
   = (- ENOMEM, \<lparr>spi = 0, tty_minor = 0, tty_dev = 0, enq_buf = [], mtx = False\<rparr>,
      \<lparr>dev_count = 1, ttys = Map.empty, live = [Rx_buf 1],
       trace = [Mutex_lock, Kmalloc (Rx_buf 1) True, Kmalloc Spi_message_obj False,
                Mutex_unlock]\<rparr>)"
  by (simp add: write_m_fail xfer_len_def min_int_def SPI_TTY_MSG_LEN_def word_sless_alt)

text \<open>
  C8. The events of every call of the write path keep the lock discipline: nothing but
  \<open>mutex_lock\<close> happens while the mutex is not held, so the exchange with the SPI
  core and the delivery happen between the acquisition and the release. A call that
  passes the first check acquires the mutex exactly once and releases it exactly once,
  on the three allocation failures as on the normal exit, and leaves it free; a call
  that fails the first check never touches it. Hence, however the calls of any number of
  threads interleave, a thread whose next event is anything but the acquisition (one
  that is about to exchange, in particular) is the one owner of the mutex.
\<close>

theorem mutex_discipline:
  "disciplined False (call_events e stty buf count discard_rx s)
   \<and> count_list (call_events e stty buf count discard_rx s) Mutex_lock
       = (if buf = None \<or> count = 0 then 0 else 1)
   \<and> count_list (call_events e stty buf count discard_rx s) Mutex_unlock
       = (if buf = None \<or> count = 0 then 0 else 1)
   \<and> mtx (fst (snd (uu_spi_serial_tty_write e stty buf count discard_rx s)))
       = (if buf = None \<or> count = 0 then mtx stty else False)
   \<and> (reachable calls c \<and> pending c t = ev # evs \<and> ev \<noteq> Mutex_lock \<longrightarrow> owner c = Some t)"
proof -
  have "mtx (fst (snd (uu_spi_serial_tty_write e stty buf count discard_rx s)))
      = (if buf = None \<or> count = 0 then mtx stty else False)"
  proof (cases "buf = None \<or> count = 0")
    case True
    then show ?thesis
      by (auto simp: uu_spi_serial_tty_write_def split: option.splits)
  next
    case False
    then obtain b where buf: "buf = Some b" and count: "count \<noteq> 0"
      by auto
    consider (rx) "\<not> alloc_rx_ok e"
      | (m) "alloc_rx_ok e" "\<not> alloc_m_ok e"
      | (t) "alloc_rx_ok e" "alloc_m_ok e" "\<not> alloc_t_ok e"
      | (ok) "alloc_rx_ok e" "alloc_m_ok e" "alloc_t_ok e"
      by blast
    then show ?thesis
    proof cases
      case rx
      then show ?thesis
        by (simp add: buf count write_rx_fail [OF count])
    next
      case m
      then show ?thesis
        by (simp add: buf count write_m_fail [OF count])
    next
      case t
      then show ?thesis
        by (simp add: buf count write_t_fail [OF count])
    next
      case ok
      then show ?thesis
        by (simp add: buf count write_ok [OF count])
    qed
  qed
  moreover have "owner c = Some t"
    if "reachable calls c" and "pending c t = ev # evs" and "ev \<noteq> Mutex_lock"
  proof -
    from that(1) have "disciplined (owner c = Some t) (pending c t)"
      by (rule reachable_disciplined)
    with that(2) have "disciplined (owner c = Some t) (ev # evs)"
      by simp
    then show ?thesis
      using that(3) by (rule disciplined_head)
  qed
  ultimately show ?thesis
    by (simp only: disciplined_call lock_counts) blast
qed

theorem mutex_discipline_witness:
  "reachable
     (\<lambda>t. [\<lparr>c_env = \<lparr>alloc_rx_ok = False, alloc_m_ok = True, alloc_t_ok = True,
                     spi_sync_result = (\<lambda>dev m. (0, []))\<rparr>,
            c_stty = \<lparr>spi = 0, tty_minor = 0, tty_dev = 0, enq_buf = [], mtx = False\<rparr>,
            c_buf = Some [0x68], c_count = 1, c_discard_rx = 1,
            c_state = \<lparr>dev_count = 1, ttys = Map.empty, live = [], trace = []\<rparr>\<rparr>])
     \<lparr>owner = Some 0,
      pending = (\<lambda>t. [Mutex_lock, Kmalloc (Rx_buf 1) False, Mutex_unlock])
                  (0 := [Kmalloc (Rx_buf 1) False, Mutex_unlock])\<rparr>
   \<and> owner \<lparr>owner = Some (0 :: thread),
            pending = (\<lambda>t. [Mutex_lock, Kmalloc (Rx_buf 1) False, Mutex_unlock])
                        (0 := [Kmalloc (Rx_buf 1) False, Mutex_unlock])\<rparr> = Some 0"
proof -
  let ?call = "\<lparr>c_env = \<lparr>alloc_rx_ok = False, alloc_m_ok = True, alloc_t_ok = True,
                     spi_sync_result = (\<lambda>dev m. (0, []))\<rparr>,
            c_stty = \<lparr>spi = 0, tty_minor = 0, tty_dev = 0, enq_buf = [], mtx = False\<rparr>,
            c_buf = Some [0x68], c_count = 1, c_discard_rx = 1,
            c_state = \<lparr>dev_count = 1, ttys = Map.empty, live = [], trace = []\<rparr>\<rparr>"
  let ?c = "\<lparr>owner = Some (0 :: thread),
      pending = (\<lambda>t. [Mutex_lock, Kmalloc (Rx_buf 1) False, Mutex_unlock])
                  (0 := [Kmalloc (Rx_buf 1) False, Mutex_unlock])\<rparr>"
  have evs: "events_of ?call = [Mutex_lock, Kmalloc (Rx_buf 1) False, Mutex_unlock]"
    by (simp add: events_of_def call_events_rx_fail xfer_len_def min_int_def SPI_TTY_MSG_LEN_def
        word_sless_alt)
  have "reachable (\<lambda>t. [?call]) (start (\<lambda>t. [?call]))"
    by (rule reachable.initial)
  moreover have "step (start (\<lambda>t. [?call]))
      ((start (\<lambda>t. [?call]))\<lparr>owner := Some 0,
         pending := (pending (start (\<lambda>t. [?call])))(0 := [Kmalloc (Rx_buf 1) False, Mutex_unlock])\<rparr>)"
    by (rule step.acquire) (simp_all add: start_def evs)
  ultimately have "reachable (\<lambda>t. [?call])
      ((start (\<lambda>t. [?call]))\<lparr>owner := Some 0,
         pending := (pending (start (\<lambda>t. [?call])))(0 := [Kmalloc (Rx_buf 1) False, Mutex_unlock])\<rparr>)"
    by (rule reachable.later)
  then have reach: "reachable (\<lambda>t. [?call]) ?c"
    by (simp add: start_def evs)
  with mutex_discipline [of _ _ _ _ _ _ "\<lambda>t. [?call]" ?c 0 "Kmalloc (Rx_buf 1) False" "[Mutex_unlock]"]
  show ?thesis
    by simp
qed

end
